theory Spec2Isabelle
  imports Complex_Main
begin

section \<open>Numbers\<close>

text \<open>
  The front-end computes on JavaScript numbers. They are modelled as the reals: rounding,
  infinities and NaN are outside the model. Where the source would read \<open>undefined\<close>
  from an array and so compute NaN, the model has an explicit error branch.
  Wall-clock readings (\<open>Date.now()\<close>) are whole milliseconds and are modelled as \<open>int\<close>.
\<close>

section \<open>Data model (types/gamepad.ts)\<close>

record stick =
  stick_x :: real
  stick_y :: real

text \<open>The \<open>buttons\<close> object of \<open>GamepadState\<close>; the fields \<open>a\<close>, \<open>b\<close>, \<open>x\<close>, \<open>y\<close>, \<open>back\<close> carry the
  prefix \<open>btn_\<close>.\<close>

record buttons =
  btn_a :: bool
  btn_b :: bool
  btn_x :: bool
  btn_y :: bool
  lb :: bool
  rb :: bool
  lt :: real
  rt :: real
  btn_back :: bool
  start :: bool
  leftStickButton :: bool
  rightStickButton :: bool
  dpadUp :: bool
  dpadDown :: bool
  dpadLeft :: bool
  dpadRight :: bool
  home :: bool

record GamepadState =
  connected :: bool
  leftStick :: stick
  rightStick :: stick
  buttons :: buttons

record sensitivity =
  sens_leftStick :: real
  sens_rightStick :: real
  sens_triggers :: real

record GamepadConfig =
  deadzone :: real
  sensitivity :: sensitivity
  invertY :: bool

definition DEFAULT_GAMEPAD_CONFIG :: GamepadConfig where
  "DEFAULT_GAMEPAD_CONFIG =
     \<lparr>deadzone = 0.1,
      sensitivity = \<lparr>sens_leftStick = 1.0, sens_rightStick = 1.0, sens_triggers = 1.0\<rparr>,
      invertY = False\<rparr>"

datatype button_name =
  BtnA | BtnB | BtnX | BtnY | BtnLb | BtnRb | BtnLt | BtnRt | BtnBack | BtnStart
  | BtnLeftStick | BtnRightStick | BtnDpadUp | BtnDpadDown | BtnDpadLeft | BtnDpadRight
  | BtnHome

text \<open>The table from raw button index to button name; an index outside the table reads
  \<open>undefined\<close>, here \<open>None\<close>.\<close>

definition GAMEPAD_BUTTON_MAPPING :: "nat \<Rightarrow> button_name option" where
  "GAMEPAD_BUTTON_MAPPING i =
     (if i = 0 then Some BtnA else if i = 1 then Some BtnB
      else if i = 2 then Some BtnX else if i = 3 then Some BtnY
      else if i = 4 then Some BtnLb else if i = 5 then Some BtnRb
      else if i = 6 then Some BtnLt else if i = 7 then Some BtnRt
      else if i = 8 then Some BtnBack else if i = 9 then Some BtnStart
      else if i = 10 then Some BtnLeftStick else if i = 11 then Some BtnRightStick
      else if i = 12 then Some BtnDpadUp else if i = 13 then Some BtnDpadDown
      else if i = 14 then Some BtnDpadLeft else if i = 15 then Some BtnDpadRight
      else if i = 16 then Some BtnHome else None)"

section \<open>Signal conditioner (hooks/useGamepad.ts)\<close>

definition applyDeadzone :: "real \<Rightarrow> real \<Rightarrow> real" where
  "applyDeadzone v dz =
     (if \<bar>v\<bar> < dz then 0
      else (if v > 0 then 1 else -1) * ((\<bar>v\<bar> - dz) / (1 - dz)))"

text \<open>The gain is applied by the poller on the conditioned value:
  \<open>applyDeadzone(gamepad.axes[0], config.deadzone) * config.sensitivity.leftStick\<close>.\<close>

definition condition :: "real \<Rightarrow> real \<Rightarrow> real \<Rightarrow> real" where
  "condition raw dz gain = applyDeadzone raw dz * gain"

section \<open>Device poller (hooks/useGamepad.ts)\<close>

text \<open>The browser's \<open>GamepadButton\<close> and \<open>Gamepad\<close> objects, as far as the poller reads them.\<close>

record GamepadButton =
  pressed :: bool
  button_value :: real

record Gamepad =
  axes :: "real list"
  gp_buttons :: "GamepadButton list"

text \<open>An array read: an index past the end reads \<open>undefined\<close>, here \<open>None\<close>.\<close>

definition element :: "'a list \<Rightarrow> nat \<Rightarrow> 'a option" where
  "element xs i = (if i < length xs then Some (xs ! i) else None)"

definition initialButtons :: buttons where
  "initialButtons =
     \<lparr>btn_a = False, btn_b = False, btn_x = False, btn_y = False, lb = False, rb = False,
      lt = 0, rt = 0, btn_back = False, start = False, leftStickButton = False,
      rightStickButton = False, dpadUp = False, dpadDown = False, dpadLeft = False,
      dpadRight = False, home = False\<rparr>"

definition initialGamepadState :: GamepadState where
  "initialGamepadState =
     \<lparr>connected = False,
      leftStick = \<lparr>stick_x = 0, stick_y = 0\<rparr>,
      rightStick = \<lparr>stick_x = 0, stick_y = 0\<rparr>,
      buttons = initialButtons\<rparr>"

text \<open>The hook's state: the React state and the two refs.\<close>

record poller =
  gamepadState :: GamepadState
  gamepadIndex :: "nat option"
  animationFrameId :: "nat option"


text \<open>The search loop \<open>for (let i = 0; i < gamepads.length; i++)\<close> with its \<open>break\<close>, started at
  index \<open>i\<close>; a slot of the array holds a device or \<open>null\<close>.\<close>

fun firstLive :: "Gamepad option list \<Rightarrow> nat \<Rightarrow> nat option" where
  "firstLive [] i = None"
| "firstLive (g # gs) i = (case g of Some _ \<Rightarrow> Some i | None \<Rightarrow> firstLive gs (Suc i))"

text \<open>The body of \<open>gamepad.buttons.forEach((button, index) => ...)\<close>.\<close>

definition setButton :: "GamepadConfig \<Rightarrow> nat \<Rightarrow> GamepadButton \<Rightarrow> buttons \<Rightarrow> buttons" where
  "setButton cfg index button bs =
     (case GAMEPAD_BUTTON_MAPPING index of
        None \<Rightarrow> bs
      | Some BtnLt \<Rightarrow> bs\<lparr>lt := button_value button * sens_triggers (sensitivity cfg)\<rparr>
      | Some BtnRt \<Rightarrow> bs\<lparr>rt := button_value button * sens_triggers (sensitivity cfg)\<rparr>
      | Some BtnA \<Rightarrow> bs\<lparr>btn_a := pressed button\<rparr>
      | Some BtnB \<Rightarrow> bs\<lparr>btn_b := pressed button\<rparr>
      | Some BtnX \<Rightarrow> bs\<lparr>btn_x := pressed button\<rparr>
      | Some BtnY \<Rightarrow> bs\<lparr>btn_y := pressed button\<rparr>
      | Some BtnLb \<Rightarrow> bs\<lparr>lb := pressed button\<rparr>
      | Some BtnRb \<Rightarrow> bs\<lparr>rb := pressed button\<rparr>
      | Some BtnBack \<Rightarrow> bs\<lparr>btn_back := pressed button\<rparr>
      | Some BtnStart \<Rightarrow> bs\<lparr>start := pressed button\<rparr>
      | Some BtnLeftStick \<Rightarrow> bs\<lparr>leftStickButton := pressed button\<rparr>
      | Some BtnRightStick \<Rightarrow> bs\<lparr>rightStickButton := pressed button\<rparr>
      | Some BtnDpadUp \<Rightarrow> bs\<lparr>dpadUp := pressed button\<rparr>
      | Some BtnDpadDown \<Rightarrow> bs\<lparr>dpadDown := pressed button\<rparr>
      | Some BtnDpadLeft \<Rightarrow> bs\<lparr>dpadLeft := pressed button\<rparr>
      | Some BtnDpadRight \<Rightarrow> bs\<lparr>dpadRight := pressed button\<rparr>
      | Some BtnHome \<Rightarrow> bs\<lparr>home := pressed button\<rparr>)"

fun forEachButton :: "GamepadConfig \<Rightarrow> GamepadButton list \<Rightarrow> nat \<Rightarrow> buttons \<Rightarrow> buttons" where
  "forEachButton cfg [] index bs = bs"
| "forEachButton cfg (button # rest) index bs =
     forEachButton cfg rest (Suc index) (setButton cfg index button bs)"

text \<open>A device that reports fewer than four axes makes the source read \<open>undefined\<close> and
  store NaN in the snapshot; the real-valued model has no such number and returns
  \<open>AxisUndefined\<close> in its place.\<close>

datatype poll_error = AxisUndefined

definition invertFactor :: "GamepadConfig \<Rightarrow> real" where
  "invertFactor cfg = (if invertY cfg then -1 else 1)"

definition liveSnapshot :: "GamepadConfig \<Rightarrow> Gamepad \<Rightarrow> poll_error + GamepadState" where
  "liveSnapshot cfg gamepad =
     (case (element (axes gamepad) 0, element (axes gamepad) 1,
            element (axes gamepad) 2, element (axes gamepad) 3) of
        (Some a0, Some a1, Some a2, Some a3) \<Rightarrow>
          Inr \<lparr>connected = True,
               leftStick =
                 \<lparr>stick_x = condition a0 (deadzone cfg) (sens_leftStick (sensitivity cfg)),
                  stick_y = condition a1 (deadzone cfg) (sens_leftStick (sensitivity cfg))
                            * invertFactor cfg\<rparr>,
               rightStick =
                 \<lparr>stick_x = condition a2 (deadzone cfg) (sens_rightStick (sensitivity cfg)),
                  stick_y = condition a3 (deadzone cfg) (sens_rightStick (sensitivity cfg))
                            * invertFactor cfg\<rparr>,
               buttons = forEachButton cfg (gp_buttons gamepad) 0 initialButtons\<rparr>
      | _ \<Rightarrow> Inl AxisUndefined)"

text \<open>One run of \<open>pollGamepad\<close>. \<open>gamepads\<close> is what \<open>navigator.getGamepads()\<close> returns and
  \<open>raf\<close> the handle that \<open>requestAnimationFrame\<close> returns for the next iteration.\<close>

definition pollGamepad ::
  "GamepadConfig \<Rightarrow> Gamepad option list \<Rightarrow> nat \<Rightarrow> poller \<Rightarrow> poll_error + poller" where
  "pollGamepad cfg gamepads raf p =
     (let index = (case gamepadIndex p of None \<Rightarrow> firstLive gamepads 0 | Some i \<Rightarrow> Some i) in
      case index of
        None \<Rightarrow> Inr (p\<lparr>animationFrameId := Some raf\<rparr>)
      | Some i \<Rightarrow>
          (case element gamepads i of
             Some (Some gamepad) \<Rightarrow>
               (case liveSnapshot cfg gamepad of
                  Inl e \<Rightarrow> Inl e
                | Inr s \<Rightarrow>
                    Inr (p\<lparr>gamepadState := s, gamepadIndex := Some i,
                           animationFrameId := Some raf\<rparr>))
           | _ \<Rightarrow>
               Inr (p\<lparr>gamepadState := (gamepadState p)\<lparr>connected := False\<rparr>,
                      gamepadIndex := None, animationFrameId := Some raf\<rparr>)))"





section \<open>Command throttler (hooks/useGamepadControl.ts)\<close>

record deltas =
  delta_x :: real
  delta_y :: real
  delta_z :: real
  wrist :: real

datatype gripper = GripperOpen | GripperClose | GripperStay

text \<open>\<open>GamepadControlMessage\<close>: the optional \<open>gripper\<close> is \<open>None\<close> while it is \<open>undefined\<close>;
  \<open>buttons\<close> is the object literal, key by key.\<close>

record GamepadControlMessage =
  msg_type :: string
  deltas :: deltas
  gripper :: "gripper option"
  msg_buttons :: "(string \<times> bool) list"

definition CONTROL_UPDATE_RATE :: real where
  "CONTROL_UPDATE_RATE = 60"

definition CONTROL_UPDATE_INTERVAL :: real where
  "CONTROL_UPDATE_INTERVAL = 1000 / CONTROL_UPDATE_RATE"

record control_refs =
  lastUpdateTime :: int
  previousState :: "GamepadState option"

definition initialRefs :: control_refs where
  "initialRefs = \<lparr>lastUpdateTime = 0, previousState = None\<rparr>"

definition hasMovement :: "GamepadState \<Rightarrow> bool" where
  "hasMovement s =
     (\<bar>stick_x (leftStick s)\<bar> > 0.01 \<or> \<bar>stick_y (leftStick s)\<bar> > 0.01
      \<or> \<bar>stick_x (rightStick s)\<bar> > 0.01 \<or> \<bar>stick_y (rightStick s)\<bar> > 0.01)"

definition hasGripperInput :: "GamepadState \<Rightarrow> bool" where
  "hasGripperInput s = (lt (buttons s) > 0.1 \<or> rt (buttons s) > 0.1)"

definition buttonChanged :: "GamepadState \<Rightarrow> GamepadState \<Rightarrow> bool" where
  "buttonChanged s prev =
     (btn_a (buttons s) \<noteq> btn_a (buttons prev) \<or> btn_x (buttons s) \<noteq> btn_x (buttons prev)
      \<or> btn_y (buttons s) \<noteq> btn_y (buttons prev) \<or> rb (buttons s) \<noteq> rb (buttons prev))"

definition speedMultiplier :: "GamepadState \<Rightarrow> real" where
  "speedMultiplier s = (if rb (buttons s) then 0.03 else 0.15)"

text \<open>The message as it is handed to \<open>sendGamepadControl\<close>: the object literal, then the
  assignment of \<open>gripper\<close>.\<close>

definition controlMessage :: "GamepadState \<Rightarrow> GamepadControlMessage" where
  "controlMessage s =
     \<lparr>msg_type = ''gamepad_control'',
      deltas =
        \<lparr>delta_x = stick_x (leftStick s) * speedMultiplier s,
         delta_y = - stick_y (leftStick s) * speedMultiplier s,
         delta_z = - stick_y (rightStick s) * speedMultiplier s,
         wrist = stick_x (rightStick s) * speedMultiplier s\<rparr>,
      gripper = None,
      msg_buttons =
        [(''a'', btn_a (buttons s)), (''x'', btn_x (buttons s)), (''y'', btn_y (buttons s)),
         (''lb'', lb (buttons s)), (''rb'', rb (buttons s)),
         (''dpadUp'', dpadUp (buttons s)), (''dpadDown'', dpadDown (buttons s)),
         (''dpadLeft'', dpadLeft (buttons s)), (''dpadRight'', dpadRight (buttons s))]\<rparr>
     \<lparr>gripper :=
        Some (if rt (buttons s) > 0.5 then GripperOpen
              else if lt (buttons s) > 0.5 then GripperClose
              else GripperStay)\<rparr>"

text \<open>One run of the effect, at wall-clock time \<open>now\<close> on the snapshot \<open>s\<close>: the message
  handed to \<open>sendGamepadControl\<close> (\<open>None\<close> when the effect returns early) and the refs
  afterwards.\<close>

definition useGamepadControl ::
  "control_refs \<Rightarrow> int \<Rightarrow> GamepadState \<Rightarrow> GamepadControlMessage option \<times> control_refs" where
  "useGamepadControl r now s =
     (if \<not> connected s then (None, r)
      else if real_of_int (now - lastUpdateTime r) < CONTROL_UPDATE_INTERVAL then (None, r)
      else if \<not> hasMovement s \<and> \<not> hasGripperInput s
              \<and> (case previousState r of None \<Rightarrow> False | Some prev \<Rightarrow> \<not> buttonChanged s prev)
        then (None, r)
      else (Some (controlMessage s), \<lparr>lastUpdateTime = now, previousState = Some s\<rparr>))"

section \<open>Control-message sender (services/gamepadService.ts)\<close>

datatype readyState = CONNECTING | OPEN | CLOSING | CLOSED

text \<open>
  The browser's socket as the sender sees it: its \<open>readyState\<close>, what it has transmitted so
  far, and how its next calls of \<open>send\<close> end. The browser is not part of the repository, so
  the outcome of each call is a parameter: \<open>throws\<close> lists, call by call, whether \<open>send\<close>
  throws, and a call past the end of the list transmits.
\<close>

record WebSocket =
  readyState :: readyState
  transmitted :: "GamepadControlMessage list"
  throws :: "bool list"

datatype outcome = Sent | Thrown

definition ws_send :: "GamepadControlMessage \<Rightarrow> WebSocket \<Rightarrow> outcome \<times> WebSocket" where
  "ws_send m sock =
     (case throws sock of
        [] \<Rightarrow> (Sent, sock\<lparr>transmitted := transmitted sock @ [m]\<rparr>)
      | t # ts \<Rightarrow>
          if t then (Thrown, sock\<lparr>throws := ts\<rparr>)
          else (Sent, sock\<lparr>transmitted := transmitted sock @ [m], throws := ts\<rparr>))"

text \<open>The module state, with the socket that \<open>getWebSocketConnection()\<close> returns (\<open>None\<close> for
  \<open>null\<close>).\<close>

record service =
  connection :: "WebSocket option"
  messageQueue :: "GamepadControlMessage list"
  isProcessingQueue :: bool

definition initialService :: "WebSocket option \<Rightarrow> service" where
  "initialService c = \<lparr>connection = c, messageQueue = [], isProcessingQueue = False\<rparr>"

text \<open>The loop \<open>while (messageQueue.length > 0)\<close> of \<open>processMessageQueue\<close>: \<open>shift\<close>, then
  \<open>send\<close>; on a throw \<open>unshift\<close> and \<open>break\<close>. It returns the queue that is left.\<close>

fun drainQueue ::
  "GamepadControlMessage list \<Rightarrow> WebSocket \<Rightarrow> GamepadControlMessage list \<times> WebSocket" where
  "drainQueue [] sock = ([], sock)"
| "drainQueue (m # q) sock =
     (case ws_send m sock of
        (Thrown, sock') \<Rightarrow> (m # q, sock')
      | (Sent, sock') \<Rightarrow> drainQueue q sock')"

definition processMessageQueue :: "service \<Rightarrow> service" where
  "processMessageQueue st =
     (if isProcessingQueue st \<or> messageQueue st = [] then st
      else
        (case connection st of
           None \<Rightarrow> st\<lparr>isProcessingQueue := False\<rparr>
         | Some sock \<Rightarrow>
             if readyState sock \<noteq> OPEN then st\<lparr>isProcessingQueue := False\<rparr>
             else
               (case drainQueue (messageQueue st) sock of
                  (q, sock') \<Rightarrow>
                    \<lparr>connection = Some sock', messageQueue = q, isProcessingQueue = False\<rparr>)))"

text \<open>\<open>sendGamepadControl\<close>. Its local \<open>ws\<close> is the same socket object that
  \<open>processMessageQueue\<close> sends on, so the final \<open>send\<close> acts on the connection as the
  drain left it.\<close>

definition sendGamepadControl :: "GamepadControlMessage \<Rightarrow> service \<Rightarrow> service" where
  "sendGamepadControl m st =
     (case connection st of
        None \<Rightarrow> st\<lparr>messageQueue := messageQueue st @ [m]\<rparr>
      | Some sock \<Rightarrow>
          if readyState sock \<noteq> OPEN then st\<lparr>messageQueue := messageQueue st @ [m]\<rparr>
          else
            (let st1 = (if messageQueue st \<noteq> [] \<and> \<not> isProcessingQueue st
                        then processMessageQueue st else st)
             in case connection st1 of
                  None \<Rightarrow> st1
                | Some sock1 \<Rightarrow>
                    (case ws_send m sock1 of
                       (Sent, sock2) \<Rightarrow> st1\<lparr>connection := Some sock2\<rparr>
                     | (Thrown, sock2) \<Rightarrow>
                         st1\<lparr>connection := Some sock2,
                             messageQueue := messageQueue st1 @ [m]\<rparr>)))"

section \<open>Transport session (services/websocket.ts)\<close>

text \<open>
  The session object together with the part of the browser it talks to. Sockets are
  numbered in the order \<open>new WebSocket\<close> creates them and \<open>sockets\<close> holds their ready
  states; \<open>timers\<close> holds the pending timeouts as pairs of handle and due time; \<open>clock\<close> is
  the time in milliseconds. \<open>url_ok\<close> says whether the session's URL is one the
  \<open>WebSocket\<close> constructor accepts: it throws otherwise. Every socket that \<open>connect\<close>
  creates carries the same four handlers, bound to this session.
\<close>

record world =
  ws :: "nat option"
  reconnectTimeout :: "nat option"
  url_ok :: bool
  sockets :: "readyState list"
  timers :: "(nat \<times> nat) list"
  nextTimer :: nat
  clock :: nat

text \<open>A new session in a fresh page; timeout handles are positive.\<close>

definition newSession :: "bool \<Rightarrow> world" where
  "newSession ok =
     \<lparr>ws = None, reconnectTimeout = None, url_ok = ok, sockets = [], timers = [],
      nextTimer = 1, clock = 0\<rparr>"

definition setTimeout :: "nat \<Rightarrow> world \<Rightarrow> nat \<times> world" where
  "setTimeout delay w =
     (nextTimer w,
      w\<lparr>timers := timers w @ [(nextTimer w, clock w + delay)], nextTimer := Suc (nextTimer w)\<rparr>)"

definition clearTimeout :: "nat \<Rightarrow> world \<Rightarrow> world" where
  "clearTimeout t w = w\<lparr>timers := filter (\<lambda>p. fst p \<noteq> t) (timers w)\<rparr>"

text \<open>\<open>if (this.reconnectTimeout) clearTimeout(this.reconnectTimeout)\<close>: the handle is
  tested for truthiness, so \<open>null\<close> and 0 skip the call.\<close>

definition clearReconnect :: "world \<Rightarrow> world" where
  "clearReconnect w =
     (case reconnectTimeout w of
        None \<Rightarrow> w
      | Some t \<Rightarrow> if t \<noteq> 0 then clearTimeout t w else w)"

text \<open>\<open>connect\<close>: when the constructor throws, the promise is rejected and nothing else
  changes.\<close>

definition connect :: "world \<Rightarrow> world" where
  "connect w =
     (if url_ok w
      then w\<lparr>sockets := sockets w @ [CONNECTING], ws := Some (length (sockets w))\<rparr>
      else w)"

definition scheduleReconnect :: "world \<Rightarrow> world" where
  "scheduleReconnect w =
     (case setTimeout 1000 (clearReconnect w) of
        (t, w') \<Rightarrow> w'\<lparr>reconnectTimeout := Some t\<rparr>)"

text \<open>\<open>close()\<close> on a socket that is connecting or open starts the closing handshake; on
  one that is closing or closed it does nothing.\<close>

definition ws_close :: "readyState \<Rightarrow> readyState" where
  "ws_close r = (if r = CONNECTING \<or> r = OPEN then CLOSING else r)"

definition disconnect :: "world \<Rightarrow> world" where
  "disconnect w =
     (let w1 = clearReconnect w in
      case ws w1 of
        None \<Rightarrow> w1
      | Some i \<Rightarrow> w1\<lparr>sockets := (sockets w1)[i := ws_close (sockets w1 ! i)]\<rparr>)"

text \<open>
  What can happen to a session: the application calls \<open>connect\<close> or \<open>disconnect\<close>, or the
  browser runs one of the callbacks. A socket that is connecting may open; a socket that is
  not yet closed may close, which runs its \<open>onclose\<close>; an error event runs \<open>onerror\<close>, which
  logs and rejects the promise; a pending timeout whose due time has come may fire, which
  runs the callback given to \<open>setTimeout\<close>; and time passes. An event that is not enabled
  leaves the world as it is.
\<close>

datatype event =
  CallConnect | CallDisconnect
  | SocketOpens nat | SocketErrors nat | SocketCloses nat
  | TimerFires nat | Advance nat

definition due :: "nat \<Rightarrow> world \<Rightarrow> bool" where
  "due t w = (\<exists>p \<in> set (timers w). fst p = t \<and> snd p \<le> clock w)"

fun step :: "event \<Rightarrow> world \<Rightarrow> world" where
  "step CallConnect w = connect w"
| "step CallDisconnect w = disconnect w"
| "step (SocketOpens i) w =
     (if element (sockets w) i = Some CONNECTING then w\<lparr>sockets := (sockets w)[i := OPEN]\<rparr>
      else w)"
| "step (SocketErrors i) w = w"
| "step (SocketCloses i) w =
     (if i < length (sockets w) \<and> sockets w ! i \<noteq> CLOSED
      then scheduleReconnect (w\<lparr>sockets := (sockets w)[i := CLOSED]\<rparr>)
      else w)"
| "step (TimerFires t) w = (if due t w then connect (clearTimeout t w) else w)"
| "step (Advance n) w = w\<lparr>clock := clock w + n\<rparr>"

fun run :: "event list \<Rightarrow> world \<Rightarrow> world" where
  "run [] w = w"
| "run (e # es) w = run es (step e w)"

section \<open>Predicates and inputs used in the statements\<close>

text \<open>The declared ranges of a snapshot's analog fields: stick components in \<open>[-1,1]\<close>,
  triggers in \<open>[0,1]\<close>.\<close>

definition analogInRange :: "GamepadState \<Rightarrow> bool" where
  "analogInRange s =
     (\<bar>stick_x (leftStick s)\<bar> \<le> 1 \<and> \<bar>stick_y (leftStick s)\<bar> \<le> 1
      \<and> \<bar>stick_x (rightStick s)\<bar> \<le> 1 \<and> \<bar>stick_y (rightStick s)\<bar> \<le> 1
      \<and> 0 \<le> lt (buttons s) \<and> lt (buttons s) \<le> 1
      \<and> 0 \<le> rt (buttons s) \<and> rt (buttons s) \<le> 1)"



text \<open>The invariant of the session's timers: at most one timeout is pending, and it is the
  one whose handle \<open>reconnectTimeout\<close> holds.\<close>

definition timer_inv :: "world \<Rightarrow> bool" where
  "timer_inv w =
     (0 < nextTimer w \<and> length (timers w) \<le> 1
      \<and> (\<forall>p \<in> set (timers w).
            reconnectTimeout w = Some (fst p) \<and> 0 < fst p \<and> fst p < nextTimer w))"

text \<open>Snapshots, devices and sockets on which the statements are evaluated.\<close>

definition pushedRight :: GamepadState where
  "pushedRight = initialGamepadState\<lparr>connected := True, leftStick := \<lparr>stick_x = 0.5, stick_y = 0\<rparr>\<rparr>"

definition nudgedWithTrigger :: GamepadState where
  "nudgedWithTrigger =
     initialGamepadState\<lparr>connected := True, leftStick := \<lparr>stick_x = 0.005, stick_y = 0\<rparr>,
       buttons := initialButtons\<lparr>rt := 0.6\<rparr>\<rparr>"

definition precisionPush :: GamepadState where
  "precisionPush =
     initialGamepadState\<lparr>connected := True, leftStick := \<lparr>stick_x = 1, stick_y = 0.5\<rparr>,
       rightStick := \<lparr>stick_x = - 1, stick_y = - 0.5\<rparr>,
       buttons := initialButtons\<lparr>rb := True\<rparr>\<rparr>"

definition bothTriggers :: GamepadState where
  "bothTriggers =
     initialGamepadState\<lparr>connected := True, buttons := initialButtons\<lparr>lt := 0.6, rt := 0.6\<rparr>\<rparr>"

definition leftTrigger :: GamepadState where
  "leftTrigger =
     initialGamepadState\<lparr>connected := True, buttons := initialButtons\<lparr>lt := 0.6, rt := 0.5\<rparr>\<rparr>"





definition openSocket :: WebSocket where
  "openSocket = \<lparr>readyState = OPEN, transmitted = [], throws = []\<rparr>"

section \<open>Properties of the signal conditioner\<close>

lemma applyDeadzone_closed_form:
  assumes "0 \<le> dz"
  shows "applyDeadzone v dz = (max 0 (v - dz) + min 0 (v + dz)) / (1 - dz)"
proof -
  consider (rest) "\<bar>v\<bar> < dz" | (pos) "dz \<le> v" "0 < v" | (zero) "v = 0" "dz = 0" | (neg) "v \<le> - dz" "v < 0"
    using assms by fastforce
  then show ?thesis
  proof cases
    case rest
    then have "max 0 (v - dz) = 0" "min 0 (v + dz) = 0"
      by (auto simp: max_def min_def)
    with rest show ?thesis by (simp add: applyDeadzone_def)
  next
    case pos
    then show ?thesis using assms by (simp add: applyDeadzone_def max_def min_def)
  next
    case zero
    then show ?thesis by (simp add: applyDeadzone_def)
  next
    case neg
    then have "\<not> \<bar>v\<bar> < dz" "\<bar>v\<bar> = - v" "max 0 (v - dz) = 0" "min 0 (v + dz) = v + dz"
      using assms by (auto simp: max_def min_def)
    with neg show ?thesis
      by (simp add: applyDeadzone_def field_simps)
  qed
qed

lemma condition_continuous:
  assumes "0 \<le> dz"
  shows "continuous_on UNIV (\<lambda>r. condition r dz gain)"
proof -
  have eq: "(\<lambda>r. condition r dz gain) = (\<lambda>r. (max 0 (r - dz) + min 0 (r + dz)) * (gain / (1 - dz)))"
    by (rule ext) (simp add: condition_def applyDeadzone_closed_form [OF assms])
  have cont: "continuous_on UNIV (\<lambda>r. (max 0 (r - dz) + min 0 (r + dz)) * (gain / (1 - dz)))"
    by (intro continuous_intros)
  show ?thesis by (subst eq) (rule cont)
qed

text \<open>
  C2. With a deadzone in \<open>[0,1)\<close>, the conditioner returns exactly 0 when \<open>|raw| < deadzone\<close>
  and otherwise \<open>sign(raw) * ((|raw| - deadzone) / (1 - deadzone)) * gain\<close>; at
  \<open>(0.5, 0.1, 1.0)\<close> it is \<open>(0.5 - 0.1) / (1 - 0.1)\<close>, within a thousandth of 0.444; and as a
  function of the raw value it is continuous everywhere, so also where \<open>|raw| = deadzone\<close>.
\<close>

theorem C2_condition:
  assumes "0 \<le> dz" and "dz < 1"
  shows "(\<bar>raw\<bar> < dz \<longrightarrow> condition raw dz gain = 0)
       \<and> (\<not> \<bar>raw\<bar> < dz \<longrightarrow>
            condition raw dz gain = sgn raw * ((\<bar>raw\<bar> - dz) / (1 - dz)) * gain)
       \<and> condition 0.5 0.1 1.0 = (0.5 - 0.1) / (1 - 0.1)
       \<and> \<bar>condition 0.5 0.1 1.0 - 0.444\<bar> < 0.001
       \<and> continuous_on UNIV (\<lambda>r. condition r dz gain)
       \<and> condition dz dz gain = 0 \<and> condition (- dz) dz gain = 0"
proof -
  have rest: "\<bar>raw\<bar> < dz \<longrightarrow> condition raw dz gain = 0"
    by (simp add: condition_def applyDeadzone_def)
  have live: "\<not> \<bar>raw\<bar> < dz \<longrightarrow>
      condition raw dz gain = sgn raw * ((\<bar>raw\<bar> - dz) / (1 - dz)) * gain"
    using assms by (auto simp: condition_def applyDeadzone_def sgn_real_def)
  have ex: "condition 0.5 0.1 1.0 = (0.5 - 0.1) / (1 - 0.1)"
    by (simp add: condition_def applyDeadzone_def)
  have approx: "\<bar>condition 0.5 0.1 1.0 - 0.444\<bar> < 0.001"
    by (simp add: condition_def applyDeadzone_def)
  have edge: "condition dz dz gain = 0" "condition (- dz) dz gain = 0"
    using assms by (auto simp: condition_def applyDeadzone_def)
  from rest live ex approx condition_continuous [OF assms(1)] edge show ?thesis
    by blast
qed

theorem C2_condition_witness:
  "condition 0.05 0.1 2 = 0
   \<and> condition (- 0.55) 0.1 2 = sgn (- 0.55) * ((\<bar>- 0.55\<bar> - 0.1) / (1 - 0.1)) * 2
   \<and> condition (- 0.55) 0.1 2 = - 1
   \<and> continuous_on UNIV (\<lambda>r. condition r 0.1 2)"
proof -
  have a: "(0::real) \<le> 0.1" and b: "(0.1::real) < 1" by simp_all
  have "condition 0.05 0.1 2 = 0"
    using C2_condition [OF a b, of "0.05" 2] by simp
  moreover have "condition (- 0.55) 0.1 2 = sgn (- 0.55) * ((\<bar>- 0.55\<bar> - 0.1) / (1 - 0.1)) * 2"
    using C2_condition [OF a b, of "- 0.55" 2] by simp
  moreover have "condition (- 0.55) 0.1 2 = - 1"
    using C2_condition [OF a b, of "- 0.55" 2] by (simp add: sgn_real_def)
  moreover have "continuous_on UNIV (\<lambda>r. condition r 0.1 2)"
    using C2_condition [OF a b, of 0 2] by blast
  ultimately show ?thesis by blast
qed

section \<open>Properties of the command throttler\<close>

lemma sent_iff:
  "useGamepadControl r now s = (Some m, r') \<Longrightarrow>
     m = controlMessage s \<and> r' = \<lparr>lastUpdateTime = now, previousState = Some s\<rparr> \<and> connected s
     \<and> \<not> real_of_int (now - lastUpdateTime r) < CONTROL_UPDATE_INTERVAL"
  by (auto simp: useGamepadControl_def split: if_splits)

text \<open>
  C1, as stated, fails: a snapshot that arrives 20 ms after the previous sent command, with
  the left stick at 0.5, is sent, although 20 ms is less than 60 ms.
\<close>

theorem C1_counterexample:
  "real_of_int (1020 - lastUpdateTime \<lparr>lastUpdateTime = 1000, previousState = Some pushedRight\<rparr>) < 60
   \<and> \<bar>stick_x (leftStick pushedRight)\<bar> > 0.01
   \<and> fst (useGamepadControl \<lparr>lastUpdateTime = 1000, previousState = Some pushedRight\<rparr> 1020 pushedRight)
       = Some (controlMessage pushedRight)"
  by (simp add: useGamepadControl_def pushedRight_def initialGamepadState_def hasMovement_def
      CONTROL_UPDATE_INTERVAL_def CONTROL_UPDATE_RATE_def)

text \<open>
  C1, amended. The interval is \<open>1000 / 60\<close> ms, about 16.67 ms: on every tick whose snapshot
  arrives less than \<open>1000 / 60\<close> ms after the time of the previously sent command no
  command is sent and the bookkeeping is unchanged, whatever the sticks; and on a tick of
  a connected device that arrives no sooner than that, with a stick component above the
  0.01 movement threshold, the command is sent.
\<close>

theorem C1_throttle:
  "(real_of_int (now - lastUpdateTime r) < 1000 / 60 \<longrightarrow> useGamepadControl r now s = (None, r))
   \<and> (connected s \<and> hasMovement s \<and> \<not> real_of_int (now - lastUpdateTime r) < 1000 / 60 \<longrightarrow>
        useGamepadControl r now s
        = (Some (controlMessage s), \<lparr>lastUpdateTime = now, previousState = Some s\<rparr>))"
  by (simp add: useGamepadControl_def CONTROL_UPDATE_INTERVAL_def CONTROL_UPDATE_RATE_def)

theorem C1_throttle_witness:
  "useGamepadControl \<lparr>lastUpdateTime = 1000, previousState = Some pushedRight\<rparr> 1016 pushedRight
     = (None, \<lparr>lastUpdateTime = 1000, previousState = Some pushedRight\<rparr>)
   \<and> useGamepadControl \<lparr>lastUpdateTime = 1000, previousState = Some pushedRight\<rparr> 1017 pushedRight
     = (Some (controlMessage pushedRight), \<lparr>lastUpdateTime = 1017, previousState = Some pushedRight\<rparr>)"
  using C1_throttle [of 1016 "\<lparr>lastUpdateTime = 1000, previousState = Some pushedRight\<rparr>" pushedRight]
    C1_throttle [of 1017 "\<lparr>lastUpdateTime = 1000, previousState = Some pushedRight\<rparr>" pushedRight]
  by (simp add: pushedRight_def initialGamepadState_def hasMovement_def)

text \<open>
  C7. For every sent command, the deltas are the stick components times the speed
  multiplier, which is 0.03 when \<open>rb\<close> is held and 0.15 otherwise:
  \<open>x = leftStick.x * k\<close>, \<open>y = -leftStick.y * k\<close>, \<open>z = -rightStick.y * k\<close>,
  \<open>wrist = rightStick.x * k\<close>.
\<close>

theorem C7_deltas:
  assumes "useGamepadControl r now s = (Some m, r')"
  shows "delta_x (deltas m) = stick_x (leftStick s) * (if rb (buttons s) then 0.03 else 0.15)
       \<and> delta_y (deltas m) = - stick_y (leftStick s) * (if rb (buttons s) then 0.03 else 0.15)
       \<and> delta_z (deltas m) = - stick_y (rightStick s) * (if rb (buttons s) then 0.03 else 0.15)
       \<and> wrist (deltas m) = stick_x (rightStick s) * (if rb (buttons s) then 0.03 else 0.15)"
  using sent_iff [OF assms] by (simp add: controlMessage_def speedMultiplier_def)

theorem C7_deltas_witness:
  "fst (useGamepadControl initialRefs 1000 precisionPush) = Some (controlMessage precisionPush)
   \<and> deltas (controlMessage precisionPush)
     = \<lparr>delta_x = 0.03, delta_y = - 0.015, delta_z = 0.015, wrist = - 0.03\<rparr>
   \<and> fst (useGamepadControl initialRefs 1000 pushedRight) = Some (controlMessage pushedRight)
   \<and> delta_x (deltas (controlMessage pushedRight)) = 0.075"
proof -
  have a: "useGamepadControl initialRefs 1000 precisionPush
      = (Some (controlMessage precisionPush),
         \<lparr>lastUpdateTime = 1000, previousState = Some precisionPush\<rparr>)"
    by (simp add: useGamepadControl_def initialRefs_def precisionPush_def initialGamepadState_def
        hasMovement_def CONTROL_UPDATE_INTERVAL_def CONTROL_UPDATE_RATE_def)
  have b: "useGamepadControl initialRefs 1000 pushedRight
      = (Some (controlMessage pushedRight),
         \<lparr>lastUpdateTime = 1000, previousState = Some pushedRight\<rparr>)"
    by (simp add: useGamepadControl_def initialRefs_def pushedRight_def initialGamepadState_def
        hasMovement_def CONTROL_UPDATE_INTERVAL_def CONTROL_UPDATE_RATE_def)
  have "deltas (controlMessage precisionPush)
      = \<lparr>delta_x = 0.03, delta_y = - 0.015, delta_z = 0.015, wrist = - 0.03\<rparr>"
    using C7_deltas [OF a]
    by (simp add: precisionPush_def initialGamepadState_def initialButtons_def)
  moreover have "delta_x (deltas (controlMessage pushedRight)) = 0.075"
    using C7_deltas [OF b]
    by (simp add: pushedRight_def initialGamepadState_def initialButtons_def)
  ultimately show ?thesis using a b by simp
qed

text \<open>
  C8. Every sent command carries one gripper value: \<open>open\<close> if the right trigger exceeds
  0.5, else \<open>close\<close> if the left trigger exceeds 0.5, else \<open>stay\<close>; with both triggers above
  0.5 it is \<open>open\<close>.
\<close>

theorem C8_gripper:
  assumes "useGamepadControl r now s = (Some m, r')"
  shows "gripper m = Some (if rt (buttons s) > 0.5 then GripperOpen
                           else if lt (buttons s) > 0.5 then GripperClose else GripperStay)
       \<and> (rt (buttons s) > 0.5 \<and> lt (buttons s) > 0.5 \<longrightarrow> gripper m = Some GripperOpen)"
  using sent_iff [OF assms] by (simp add: controlMessage_def)

theorem C8_gripper_witness:
  "fst (useGamepadControl initialRefs 1000 bothTriggers) = Some (controlMessage bothTriggers)
   \<and> gripper (controlMessage bothTriggers) = Some GripperOpen
   \<and> fst (useGamepadControl initialRefs 1000 leftTrigger) = Some (controlMessage leftTrigger)
   \<and> gripper (controlMessage leftTrigger) = Some GripperClose
   \<and> fst (useGamepadControl initialRefs 1000 pushedRight) = Some (controlMessage pushedRight)
   \<and> gripper (controlMessage pushedRight) = Some GripperStay"
proof -
  have a: "useGamepadControl initialRefs 1000 bothTriggers
      = (Some (controlMessage bothTriggers),
         \<lparr>lastUpdateTime = 1000, previousState = Some bothTriggers\<rparr>)"
    by (simp add: useGamepadControl_def initialRefs_def bothTriggers_def initialGamepadState_def
        CONTROL_UPDATE_INTERVAL_def CONTROL_UPDATE_RATE_def)
  have b: "useGamepadControl initialRefs 1000 leftTrigger
      = (Some (controlMessage leftTrigger),
         \<lparr>lastUpdateTime = 1000, previousState = Some leftTrigger\<rparr>)"
    by (simp add: useGamepadControl_def initialRefs_def leftTrigger_def initialGamepadState_def
        CONTROL_UPDATE_INTERVAL_def CONTROL_UPDATE_RATE_def)
  have c: "useGamepadControl initialRefs 1000 pushedRight
      = (Some (controlMessage pushedRight),
         \<lparr>lastUpdateTime = 1000, previousState = Some pushedRight\<rparr>)"
    by (simp add: useGamepadControl_def initialRefs_def pushedRight_def initialGamepadState_def
        CONTROL_UPDATE_INTERVAL_def CONTROL_UPDATE_RATE_def)
  have "gripper (controlMessage bothTriggers) = Some GripperOpen"
    using C8_gripper [OF a]
    by (simp add: bothTriggers_def initialGamepadState_def initialButtons_def)
  moreover have "gripper (controlMessage leftTrigger) = Some GripperClose"
    using C8_gripper [OF b]
    by (simp add: leftTrigger_def initialGamepadState_def initialButtons_def)
  moreover have "gripper (controlMessage pushedRight) = Some GripperStay"
    using C8_gripper [OF c]
    by (simp add: pushedRight_def initialGamepadState_def initialButtons_def)
  ultimately show ?thesis using a b c by simp
qed

text \<open>
  C9, as stated, fails: with the left stick at 0.005 (no axis above the 0.01 threshold) and
  the right trigger at 0.6, a command is sent and its \<open>x\<close> delta is 0.00075.
\<close>

theorem C9_counterexample:
  "\<bar>stick_x (leftStick nudgedWithTrigger)\<bar> \<le> 0.01 \<and> \<bar>stick_y (leftStick nudgedWithTrigger)\<bar> \<le> 0.01
   \<and> \<bar>stick_x (rightStick nudgedWithTrigger)\<bar> \<le> 0.01 \<and> \<bar>stick_y (rightStick nudgedWithTrigger)\<bar> \<le> 0.01
   \<and> fst (useGamepadControl initialRefs 1000 nudgedWithTrigger) = Some (controlMessage nudgedWithTrigger)
   \<and> delta_x (deltas (controlMessage nudgedWithTrigger)) = 0.00075"
  by (simp add: useGamepadControl_def nudgedWithTrigger_def initialGamepadState_def initialButtons_def
      initialRefs_def hasMovement_def hasGripperInput_def controlMessage_def speedMultiplier_def
      CONTROL_UPDATE_INTERVAL_def CONTROL_UPDATE_RATE_def)

text \<open>
  C9, amended. In every sent command each delta is zero exactly when its stick component
  is exactly zero, so a command sent with all four stick components at zero has all
  four deltas zero.
\<close>

theorem C9_zero_deltas:
  assumes "useGamepadControl r now s = (Some m, r')"
  shows "(delta_x (deltas m) = 0 \<longleftrightarrow> stick_x (leftStick s) = 0)
       \<and> (delta_y (deltas m) = 0 \<longleftrightarrow> stick_y (leftStick s) = 0)
       \<and> (delta_z (deltas m) = 0 \<longleftrightarrow> stick_y (rightStick s) = 0)
       \<and> (wrist (deltas m) = 0 \<longleftrightarrow> stick_x (rightStick s) = 0)"
  using sent_iff [OF assms] by (simp add: controlMessage_def speedMultiplier_def)

theorem C9_zero_deltas_witness:
  "fst (useGamepadControl initialRefs 1000 bothTriggers) = Some (controlMessage bothTriggers)
   \<and> deltas (controlMessage bothTriggers)
     = \<lparr>delta_x = 0, delta_y = 0, delta_z = 0, wrist = 0\<rparr>"
proof -
  have a: "useGamepadControl initialRefs 1000 bothTriggers
      = (Some (controlMessage bothTriggers),
         \<lparr>lastUpdateTime = 1000, previousState = Some bothTriggers\<rparr>)"
    by (simp add: useGamepadControl_def initialRefs_def bothTriggers_def initialGamepadState_def
        CONTROL_UPDATE_INTERVAL_def CONTROL_UPDATE_RATE_def)
  have "delta_x (deltas (controlMessage bothTriggers)) = 0
      \<and> delta_y (deltas (controlMessage bothTriggers)) = 0
      \<and> delta_z (deltas (controlMessage bothTriggers)) = 0
      \<and> wrist (deltas (controlMessage bothTriggers)) = 0"
    using C9_zero_deltas [OF a] by (simp add: bothTriggers_def initialGamepadState_def)
  then have "deltas (controlMessage bothTriggers)
      = \<lparr>delta_x = 0, delta_y = 0, delta_z = 0, wrist = 0\<rparr>"
    by (cases "deltas (controlMessage bothTriggers)") simp
  with a show ?thesis by simp
qed

section \<open>Properties of the device poller\<close>











lemma analogInRange_connected [simp]:
  "analogInRange (s\<lparr>connected := c\<rparr>) = analogInRange s"
  by (simp add: analogInRange_def)











text \<open>
  C10. When the bound index no longer reports a live device (its slot is \<open>null\<close> or past the
  end of the array), the poll unbinds the index and sets only \<open>connected\<close> to false: sticks
  and buttons of the snapshot keep their last polled values.
\<close>

theorem C10_lost_device:
  assumes "gamepadIndex p = Some i"
    and "element gamepads i = None \<or> element gamepads i = Some None"
  shows "\<exists>p'. pollGamepad cfg gamepads raf p = Inr p'
           \<and> gamepadIndex p' = None
           \<and> gamepadState p' = (gamepadState p)\<lparr>connected := False\<rparr>
           \<and> connected (gamepadState p') = False
           \<and> leftStick (gamepadState p') = leftStick (gamepadState p)
           \<and> rightStick (gamepadState p') = rightStick (gamepadState p)
           \<and> buttons (gamepadState p') = buttons (gamepadState p)"
  using assms by (auto simp: pollGamepad_def)

theorem C10_lost_device_witness:
  "pollGamepad DEFAULT_GAMEPAD_CONFIG [None]
     3 \<lparr>gamepadState = pushedRight, gamepadIndex = Some 0, animationFrameId = Some 2\<rparr>
   = Inr \<lparr>gamepadState = pushedRight\<lparr>connected := False\<rparr>, gamepadIndex = None,
          animationFrameId = Some 3\<rparr>
   \<and> stick_x (leftStick (pushedRight\<lparr>connected := False\<rparr>)) = 0.5"
proof -
  have "element [None :: Gamepad option] 0 = None \<or> element [None :: Gamepad option] 0 = Some None"
    by (simp add: element_def)
  from C10_lost_device [OF _ this, of "\<lparr>gamepadState = pushedRight, gamepadIndex = Some 0, animationFrameId = Some 2\<rparr>" DEFAULT_GAMEPAD_CONFIG 3]
  obtain p' where "pollGamepad DEFAULT_GAMEPAD_CONFIG [None]
     3 \<lparr>gamepadState = pushedRight, gamepadIndex = Some 0, animationFrameId = Some 2\<rparr> = Inr p'"
    "gamepadIndex p' = None" "gamepadState p' = pushedRight\<lparr>connected := False\<rparr>"
    by auto
  moreover have "stick_x (leftStick (pushedRight\<lparr>connected := False\<rparr>)) = 0.5"
    by (simp add: pushedRight_def initialGamepadState_def)
  ultimately show ?thesis
    by (simp add: pollGamepad_def element_def)
qed

section \<open>Properties of the control-message sender\<close>

lemma ws_send_False:
  assumes "list_all Not (take 1 (throws sock))"
  shows "ws_send m sock
       = (Sent, sock\<lparr>transmitted := transmitted sock @ [m], throws := drop 1 (throws sock)\<rparr>)"
  using assms by (cases "throws sock") (simp_all add: ws_send_def)

lemma ws_send_True:
  assumes "throws sock = True # rest"
  shows "ws_send m sock = (Thrown, sock\<lparr>throws := rest\<rparr>)"
  using assms by (simp add: ws_send_def)

lemma drainQueue_sent:
  "list_all Not (take (length q) (throws sock)) \<Longrightarrow>
   drainQueue q sock
   = ([], sock\<lparr>transmitted := transmitted sock @ q, throws := drop (length q) (throws sock)\<rparr>)"
proof (induction q arbitrary: sock)
  case Nil
  then show ?case by simp
next
  case (Cons m q)
  let ?sock' = "sock\<lparr>transmitted := transmitted sock @ [m], throws := drop 1 (throws sock)\<rparr>"
  from Cons.prems have first: "list_all Not (take 1 (throws sock))"
    by (cases "throws sock") simp_all
  from Cons.prems have "list_all Not (take (length q) (throws ?sock'))"
    by (cases "throws sock") simp_all
  from Cons.IH [OF this] ws_send_False [OF first, of m] show ?case
    by simp
qed

lemma replicate_False_quiet: "list_all Not (take n (replicate n False @ xs))"
  by (simp add: list_all_iff)

lemma drainQueue_thrown:
  "throws sock = replicate k False @ True # rest \<Longrightarrow> k < length q \<Longrightarrow>
   drainQueue q sock
   = (drop k q, sock\<lparr>transmitted := transmitted sock @ take k q, throws := rest\<rparr>)"
proof (induction k arbitrary: q sock)
  case 0
  then obtain m q' where "q = m # q'" by (cases q) auto
  with 0 show ?case by (simp add: ws_send_def)
next
  case (Suc k)
  then obtain m q' where q: "q = m # q'" by (cases q) auto
  let ?sock' = "sock\<lparr>transmitted := transmitted sock @ [m], throws := replicate k False @ True # rest\<rparr>"
  have send: "ws_send m sock = (Sent, ?sock')"
    using Suc.prems(1) by (simp add: ws_send_def)
  have "drainQueue q' ?sock'
      = (drop k q', ?sock'\<lparr>transmitted := transmitted ?sock' @ take k q', throws := rest\<rparr>)"
    using Suc.prems(2) q by (intro Suc.IH) simp_all
  with send q show ?case by simp
qed

lemma send_closed:
  assumes "connection st = None \<or> (\<exists>sock. connection st = Some sock \<and> readyState sock \<noteq> OPEN)"
  shows "sendGamepadControl m st = st\<lparr>messageQueue := messageQueue st @ [m]\<rparr>"
  using assms by (auto simp: sendGamepadControl_def)

lemma drain_thrown:
  assumes idle: "\<not> isProcessingQueue st"
    and h: "connection st = Some sock \<and> readyState sock = OPEN
      \<and> throws sock = replicate k False @ True # rest \<and> k < length (messageQueue st)"
  shows "processMessageQueue st
      = \<lparr>connection =
           Some (sock\<lparr>transmitted := transmitted sock @ take k (messageQueue st), throws := rest\<rparr>),
         messageQueue = messageQueue st ! k # drop (Suc k) (messageQueue st),
         isProcessingQueue = False\<rparr>"
proof -
  from h have "messageQueue st \<noteq> []" by auto
  moreover from h have "drop k (messageQueue st) = messageQueue st ! k # drop (Suc k) (messageQueue st)"
    by (simp add: Cons_nth_drop_Suc)
  ultimately show ?thesis
    using h idle drainQueue_thrown [of sock k rest "messageQueue st"]
    by (simp add: processMessageQueue_def)
qed

lemma send_idle:
  assumes "\<not> isProcessingQueue st"
  shows "\<not> isProcessingQueue (sendGamepadControl m st)"
  using assms
  by (auto simp: sendGamepadControl_def processMessageQueue_def Let_def
      split: option.splits if_splits prod.splits outcome.splits)

lemma send_open_cases:
  assumes idle: "\<not> isProcessingQueue st"
  shows "(\<forall>sock. connection st = Some sock \<and> readyState sock = OPEN
              \<and> list_all Not (take (length (messageQueue st) + 1) (throws sock)) \<longrightarrow>
            sendGamepadControl m st
            = \<lparr>connection =
                 Some (sock\<lparr>transmitted := transmitted sock @ messageQueue st @ [m],
                            throws := drop (length (messageQueue st) + 1) (throws sock)\<rparr>),
               messageQueue = [], isProcessingQueue = False\<rparr>)
       \<and> (\<forall>sock k rest. connection st = Some sock \<and> readyState sock = OPEN
              \<and> throws sock = replicate k False @ True # rest \<and> k < length (messageQueue st) \<longrightarrow>
            sendGamepadControl m st
            = (if rest \<noteq> [] \<and> hd rest
               then \<lparr>connection =
                       Some (sock\<lparr>transmitted := transmitted sock @ take k (messageQueue st),
                                  throws := tl rest\<rparr>),
                     messageQueue = messageQueue st ! k # drop (Suc k) (messageQueue st) @ [m],
                     isProcessingQueue = False\<rparr>
               else \<lparr>connection =
                       Some (sock\<lparr>transmitted :=
                                    transmitted sock @ take k (messageQueue st) @ [m],
                                  throws := drop 1 rest\<rparr>),
                     messageQueue = messageQueue st ! k # drop (Suc k) (messageQueue st),
                     isProcessingQueue = False\<rparr>))
       \<and> (\<forall>sock rest. connection st = Some sock \<and> readyState sock = OPEN
              \<and> throws sock = replicate (length (messageQueue st)) False @ True # rest \<longrightarrow>
            sendGamepadControl m st
            = \<lparr>connection =
                 Some (sock\<lparr>transmitted := transmitted sock @ messageQueue st, throws := rest\<rparr>),
               messageQueue = [m], isProcessingQueue = False\<rparr>)"
proof (intro conjI allI impI)
  fix sock
  assume h: "connection st = Some sock \<and> readyState sock = OPEN
      \<and> list_all Not (take (length (messageQueue st) + 1) (throws sock))"
  let ?q = "messageQueue st"
  let ?drained = "sock\<lparr>transmitted := transmitted sock @ ?q,
                       throws := drop (length ?q) (throws sock)\<rparr>"
  from h have all: "\<forall>x \<in> set (take (length ?q + 1) (throws sock)). \<not> x"
    by (auto simp: list_all_iff)
  have "set (take (length ?q) (throws sock)) \<subseteq> set (take (length ?q + 1) (throws sock))"
    by (rule set_take_subset_set_take) simp
  with all have drainq: "list_all Not (take (length ?q) (throws sock))"
    by (auto simp: list_all_iff)
  have "take 1 (drop (length ?q) (throws sock))
      = drop (length ?q) (take (length ?q + 1) (throws sock))"
    by (simp add: drop_take)
  then have "set (take 1 (drop (length ?q) (throws sock)))
      \<subseteq> set (take (length ?q + 1) (throws sock))"
    by (simp add: set_drop_subset)
  with all have last: "list_all Not (take 1 (throws ?drained))"
    by (auto simp: list_all_iff)
  show "sendGamepadControl m st
      = \<lparr>connection =
           Some (sock\<lparr>transmitted := transmitted sock @ ?q @ [m],
                      throws := drop (length ?q + 1) (throws sock)\<rparr>),
         messageQueue = [], isProcessingQueue = False\<rparr>"
  proof (cases "?q = []")
    case True
    with h idle last ws_send_False [of sock m] show ?thesis
      by (simp add: sendGamepadControl_def)
  next
    case False
    with h idle have "processMessageQueue st
        = \<lparr>connection = Some ?drained, messageQueue = [], isProcessingQueue = False\<rparr>"
      by (simp add: processMessageQueue_def drainQueue_sent [OF drainq])
    with False h idle ws_send_False [OF last, of m] show ?thesis
      by (simp add: sendGamepadControl_def)
  qed
next
  fix sock k rest
  assume h: "connection st = Some sock \<and> readyState sock = OPEN
      \<and> throws sock = replicate k False @ True # rest \<and> k < length (messageQueue st)"
  let ?q = "messageQueue st"
  let ?left = "sock\<lparr>transmitted := transmitted sock @ take k ?q, throws := rest\<rparr>"
  from h have ne: "?q \<noteq> []" by auto
  from h have front: "drop k ?q = ?q ! k # drop (Suc k) ?q"
    by (simp add: Cons_nth_drop_Suc)
  from h idle ne front have drained: "processMessageQueue st
      = \<lparr>connection = Some ?left, messageQueue = ?q ! k # drop (Suc k) ?q,
         isProcessingQueue = False\<rparr>"
    using drainQueue_thrown [of sock k rest ?q]
    by (simp add: processMessageQueue_def)
  show "sendGamepadControl m st
      = (if rest \<noteq> [] \<and> hd rest
         then \<lparr>connection =
                 Some (sock\<lparr>transmitted := transmitted sock @ take k ?q, throws := tl rest\<rparr>),
               messageQueue = ?q ! k # drop (Suc k) ?q @ [m],
               isProcessingQueue = False\<rparr>
         else \<lparr>connection =
                 Some (sock\<lparr>transmitted := transmitted sock @ take k ?q @ [m],
                            throws := drop 1 rest\<rparr>),
               messageQueue = ?q ! k # drop (Suc k) ?q,
               isProcessingQueue = False\<rparr>)"
  proof (cases "rest \<noteq> [] \<and> hd rest")
    case True
    then have "throws ?left = True # tl rest" by (cases rest) simp_all
    from ws_send_True [OF this, of m] True h idle ne drained show ?thesis
      by (simp add: sendGamepadControl_def)
  next
    case False
    then have "list_all Not (take 1 (throws ?left))" by (cases rest) simp_all
    from ws_send_False [OF this, of m] False h idle ne drained show ?thesis
      by (simp add: sendGamepadControl_def)
  qed
next
  fix sock rest
  assume h: "connection st = Some sock \<and> readyState sock = OPEN
      \<and> throws sock = replicate (length (messageQueue st)) False @ True # rest"
  let ?q = "messageQueue st"
  let ?drained = "sock\<lparr>transmitted := transmitted sock @ ?q, throws := True # rest\<rparr>"
  from h have quiet: "list_all Not (take (length ?q) (throws sock))"
    by (simp add: list_all_iff)
  from h have dropped: "drop (length ?q) (throws sock) = True # rest" by simp
  show "sendGamepadControl m st
      = \<lparr>connection =
           Some (sock\<lparr>transmitted := transmitted sock @ ?q, throws := rest\<rparr>),
         messageQueue = [m], isProcessingQueue = False\<rparr>"
  proof (cases "?q = []")
    case True
    with h have "throws sock = True # rest" by simp
    from ws_send_True [OF this, of m] True h idle show ?thesis
      by (simp add: sendGamepadControl_def)
  next
    case False
    with h idle dropped have "processMessageQueue st
        = \<lparr>connection = Some ?drained, messageQueue = [], isProcessingQueue = False\<rparr>"
      by (simp add: processMessageQueue_def drainQueue_sent [OF quiet])
    moreover have "ws_send m ?drained = (Thrown, ?drained\<lparr>throws := rest\<rparr>)"
      by (rule ws_send_True) simp
    ultimately show ?thesis using False h idle
      by (simp add: sendGamepadControl_def)
  qed
qed

text \<open>
  C3. Take a state in which the queue is not being processed, as at load; a send leaves
  it so. A send while the connection is absent or not open appends the message to the
  queue and changes nothing else (every throwing call of the source is inside a \<open>try\<close>, so
  the call returns). On an open connection the send is determined by where \<open>send\<close> first
  throws. If none of its calls throws, the queued messages are transmitted in their
  order, then the new message, and the queue is left empty. If the first \<open>k\<close> sends of the
  drain succeed and the next one throws, the drain has transmitted the first \<open>k\<close> queued
  messages, makes no further attempt, and leaves the failed message at the front of the
  queue, before the rest; the send then still tries the new message, which is transmitted
  or, if that call throws too, appended behind the queue. If the drain empties the queue
  and the send of the new message throws, the new message is the queue.
\<close>

theorem C3_send_queue:
  assumes idle: "\<not> isProcessingQueue st"
  shows "(connection st = None \<or> (\<exists>sock. connection st = Some sock \<and> readyState sock \<noteq> OPEN) \<longrightarrow>
            sendGamepadControl m st = st\<lparr>messageQueue := messageQueue st @ [m]\<rparr>)
       \<and> (\<forall>sock. connection st = Some sock \<and> readyState sock = OPEN
              \<and> list_all Not (take (length (messageQueue st) + 1) (throws sock)) \<longrightarrow>
            sendGamepadControl m st
            = \<lparr>connection =
                 Some (sock\<lparr>transmitted := transmitted sock @ messageQueue st @ [m],
                            throws := drop (length (messageQueue st) + 1) (throws sock)\<rparr>),
               messageQueue = [], isProcessingQueue = False\<rparr>)
       \<and> (\<forall>sock k rest. connection st = Some sock \<and> readyState sock = OPEN
              \<and> throws sock = replicate k False @ True # rest \<and> k < length (messageQueue st) \<longrightarrow>
            processMessageQueue st
            = \<lparr>connection =
                 Some (sock\<lparr>transmitted := transmitted sock @ take k (messageQueue st),
                            throws := rest\<rparr>),
               messageQueue = messageQueue st ! k # drop (Suc k) (messageQueue st),
               isProcessingQueue = False\<rparr>)
       \<and> (\<forall>sock k rest. connection st = Some sock \<and> readyState sock = OPEN
              \<and> throws sock = replicate k False @ True # rest \<and> k < length (messageQueue st) \<longrightarrow>
            sendGamepadControl m st
            = (if rest \<noteq> [] \<and> hd rest
               then \<lparr>connection =
                       Some (sock\<lparr>transmitted := transmitted sock @ take k (messageQueue st),
                                  throws := tl rest\<rparr>),
                     messageQueue = messageQueue st ! k # drop (Suc k) (messageQueue st) @ [m],
                     isProcessingQueue = False\<rparr>
               else \<lparr>connection =
                       Some (sock\<lparr>transmitted :=
                                    transmitted sock @ take k (messageQueue st) @ [m],
                                  throws := drop 1 rest\<rparr>),
                     messageQueue = messageQueue st ! k # drop (Suc k) (messageQueue st),
                     isProcessingQueue = False\<rparr>))
       \<and> (\<forall>sock rest. connection st = Some sock \<and> readyState sock = OPEN
              \<and> throws sock = replicate (length (messageQueue st)) False @ True # rest \<longrightarrow>
            sendGamepadControl m st
            = \<lparr>connection =
                 Some (sock\<lparr>transmitted := transmitted sock @ messageQueue st, throws := rest\<rparr>),
               messageQueue = [m], isProcessingQueue = False\<rparr>)
       \<and> \<not> isProcessingQueue (sendGamepadControl m st)"
proof -
  note open_cases = send_open_cases [OF idle, of m]
  have closed: "connection st = None \<or> (\<exists>sock. connection st = Some sock \<and> readyState sock \<noteq> OPEN) \<longrightarrow>
      sendGamepadControl m st = st\<lparr>messageQueue := messageQueue st @ [m]\<rparr>"
    by (intro impI) (rule send_closed)
  have drain: "\<forall>sock k rest. connection st = Some sock \<and> readyState sock = OPEN
        \<and> throws sock = replicate k False @ True # rest \<and> k < length (messageQueue st) \<longrightarrow>
      processMessageQueue st
      = \<lparr>connection =
           Some (sock\<lparr>transmitted := transmitted sock @ take k (messageQueue st),
                      throws := rest\<rparr>),
         messageQueue = messageQueue st ! k # drop (Suc k) (messageQueue st),
         isProcessingQueue = False\<rparr>"
    by (intro allI impI) (rule drain_thrown [OF idle])
  from closed open_cases [THEN conjunct1] drain open_cases [THEN conjunct2, THEN conjunct1]
    open_cases [THEN conjunct2, THEN conjunct2] send_idle [OF idle, of m]
  show ?thesis
    by (intro conjI)
qed

theorem C3_send_queue_witness:
  "sendGamepadControl (controlMessage bothTriggers)
     ((sendGamepadControl (controlMessage nudgedWithTrigger)
        (sendGamepadControl (controlMessage pushedRight) (initialService None)))
      \<lparr>connection := Some openSocket\<rparr>)
   = \<lparr>connection =
        Some (openSocket\<lparr>transmitted :=
          [controlMessage pushedRight, controlMessage nudgedWithTrigger,
           controlMessage bothTriggers]\<rparr>),
      messageQueue = [], isProcessingQueue = False\<rparr>
   \<and> processMessageQueue
       \<lparr>connection = Some (openSocket\<lparr>throws := [False, True]\<rparr>),
        messageQueue = [controlMessage pushedRight, controlMessage nudgedWithTrigger,
                        controlMessage bothTriggers],
        isProcessingQueue = False\<rparr>
     = \<lparr>connection = Some (openSocket\<lparr>transmitted := [controlMessage pushedRight]\<rparr>),
        messageQueue = [controlMessage nudgedWithTrigger, controlMessage bothTriggers],
        isProcessingQueue = False\<rparr>
   \<and> sendGamepadControl (controlMessage bothTriggers)
       \<lparr>connection = Some (openSocket\<lparr>throws := [False, True]\<rparr>),
        messageQueue = [controlMessage pushedRight, controlMessage nudgedWithTrigger],
        isProcessingQueue = False\<rparr>
     = \<lparr>connection =
          Some (openSocket\<lparr>transmitted :=
            [controlMessage pushedRight, controlMessage bothTriggers]\<rparr>),
        messageQueue = [controlMessage nudgedWithTrigger], isProcessingQueue = False\<rparr>
   \<and> sendGamepadControl (controlMessage bothTriggers)
       \<lparr>connection = Some (openSocket\<lparr>throws := [False, True, True]\<rparr>),
        messageQueue = [controlMessage pushedRight, controlMessage nudgedWithTrigger],
        isProcessingQueue = False\<rparr>
     = \<lparr>connection = Some (openSocket\<lparr>transmitted := [controlMessage pushedRight]\<rparr>),
        messageQueue = [controlMessage nudgedWithTrigger, controlMessage bothTriggers],
        isProcessingQueue = False\<rparr>
   \<and> sendGamepadControl (controlMessage bothTriggers)
       \<lparr>connection = Some (openSocket\<lparr>throws := [False, False, True]\<rparr>),
        messageQueue = [controlMessage pushedRight, controlMessage nudgedWithTrigger],
        isProcessingQueue = False\<rparr>
     = \<lparr>connection =
          Some (openSocket\<lparr>transmitted :=
            [controlMessage pushedRight, controlMessage nudgedWithTrigger]\<rparr>),
        messageQueue = [controlMessage bothTriggers], isProcessingQueue = False\<rparr>"
proof -
  let ?m1 = "controlMessage pushedRight"
  let ?m2 = "controlMessage nudgedWithTrigger"
  let ?m3 = "controlMessage bothTriggers"
  have idle0: "\<not> isProcessingQueue (initialService None)"
    by (simp add: initialService_def)
  have s1: "sendGamepadControl ?m1 (initialService None)
      = \<lparr>connection = None, messageQueue = [?m1], isProcessingQueue = False\<rparr>"
    using C3_send_queue [OF idle0, of ?m1] by (simp add: initialService_def)
  have idle1: "\<not> isProcessingQueue
      \<lparr>connection = None, messageQueue = [?m1], isProcessingQueue = False\<rparr>"
    by simp
  have s2: "sendGamepadControl ?m2
        \<lparr>connection = None, messageQueue = [?m1], isProcessingQueue = False\<rparr>
      = \<lparr>connection = None, messageQueue = [?m1, ?m2], isProcessingQueue = False\<rparr>"
    using C3_send_queue [OF idle1, of ?m2] by simp
  have idle2: "\<not> isProcessingQueue
      \<lparr>connection = Some sock, messageQueue = [?m1, ?m2], isProcessingQueue = False\<rparr>" for sock
    by simp
  have s3: "sendGamepadControl ?m3
        \<lparr>connection = Some openSocket, messageQueue = [?m1, ?m2], isProcessingQueue = False\<rparr>
      = \<lparr>connection = Some (openSocket\<lparr>transmitted := [?m1, ?m2, ?m3]\<rparr>),
         messageQueue = [], isProcessingQueue = False\<rparr>"
    using C3_send_queue [OF idle2, of openSocket ?m3, THEN conjunct2, THEN conjunct1, rule_format,
        of openSocket]
    by (simp add: openSocket_def)
  have idle3: "\<not> isProcessingQueue
      \<lparr>connection = Some (openSocket\<lparr>throws := [False, True]\<rparr>),
       messageQueue = [?m1, ?m2, ?m3], isProcessingQueue = False\<rparr>"
    by simp
  note drain =
    C3_send_queue [OF idle3, of ?m1, THEN conjunct2, THEN conjunct2, THEN conjunct1,
      rule_format, of "openSocket\<lparr>throws := [False, True]\<rparr>" 1 "[]"]
  have s4: "processMessageQueue
        \<lparr>connection = Some (openSocket\<lparr>throws := [False, True]\<rparr>),
         messageQueue = [?m1, ?m2, ?m3], isProcessingQueue = False\<rparr>
      = \<lparr>connection = Some (openSocket\<lparr>transmitted := [?m1]\<rparr>),
         messageQueue = [?m2, ?m3], isProcessingQueue = False\<rparr>"
    using drain by (simp add: openSocket_def)
  note mid =
    C3_send_queue [OF idle2, of "openSocket\<lparr>throws := [False, True]\<rparr>" ?m3,
      THEN conjunct2, THEN conjunct2, THEN conjunct2, THEN conjunct1,
      rule_format, of "openSocket\<lparr>throws := [False, True]\<rparr>" 1 "[]"]
  have s5: "sendGamepadControl ?m3
        \<lparr>connection = Some (openSocket\<lparr>throws := [False, True]\<rparr>),
         messageQueue = [?m1, ?m2], isProcessingQueue = False\<rparr>
      = \<lparr>connection = Some (openSocket\<lparr>transmitted := [?m1, ?m3]\<rparr>),
         messageQueue = [?m2], isProcessingQueue = False\<rparr>"
    using mid by (simp add: openSocket_def)
  note mid2 =
    C3_send_queue [OF idle2, of "openSocket\<lparr>throws := [False, True, True]\<rparr>" ?m3,
      THEN conjunct2, THEN conjunct2, THEN conjunct2, THEN conjunct1,
      rule_format, of "openSocket\<lparr>throws := [False, True, True]\<rparr>" 1 "[True]"]
  have s6: "sendGamepadControl ?m3
        \<lparr>connection = Some (openSocket\<lparr>throws := [False, True, True]\<rparr>),
         messageQueue = [?m1, ?m2], isProcessingQueue = False\<rparr>
      = \<lparr>connection = Some (openSocket\<lparr>transmitted := [?m1]\<rparr>),
         messageQueue = [?m2, ?m3], isProcessingQueue = False\<rparr>"
    using mid2 by (simp add: openSocket_def)
  note last =
    C3_send_queue [OF idle2, of "openSocket\<lparr>throws := [False, False, True]\<rparr>" ?m3,
      THEN conjunct2, THEN conjunct2, THEN conjunct2, THEN conjunct2, THEN conjunct1,
      rule_format, of "openSocket\<lparr>throws := [False, False, True]\<rparr>" "[]"]
  have s7: "sendGamepadControl ?m3
        \<lparr>connection = Some (openSocket\<lparr>throws := [False, False, True]\<rparr>),
         messageQueue = [?m1, ?m2], isProcessingQueue = False\<rparr>
      = \<lparr>connection = Some (openSocket\<lparr>transmitted := [?m1, ?m2]\<rparr>),
         messageQueue = [?m3], isProcessingQueue = False\<rparr>"
    using last by (simp add: openSocket_def)
  from s1 s2 s3 s4 s5 s6 s7 show ?thesis by simp
qed

section \<open>Properties of the transport session\<close>

lemma timer_inv_new: "timer_inv (newSession ok)"
  by (simp add: timer_inv_def newSession_def)

lemma clearReconnect_timers:
  assumes "timer_inv w"
  shows "timers (clearReconnect w) = []"
    and "nextTimer (clearReconnect w) = nextTimer w"
    and "clock (clearReconnect w) = clock w"
    and "reconnectTimeout (clearReconnect w) = reconnectTimeout w"
proof -
  show "timers (clearReconnect w) = []"
  proof (cases "timers w")
    case Nil
    then show ?thesis
      by (simp add: clearReconnect_def clearTimeout_def split: option.splits)
  next
    case (Cons p ps)
    with assms have "ps = []" "reconnectTimeout w = Some (fst p)" "0 < fst p"
      by (auto simp: timer_inv_def)
    with Cons show ?thesis
      by (simp add: clearReconnect_def clearTimeout_def)
  qed
qed (simp_all add: clearReconnect_def clearTimeout_def split: option.splits)

lemma connect_frame:
  "timers (connect w) = timers w" "nextTimer (connect w) = nextTimer w"
  "reconnectTimeout (connect w) = reconnectTimeout w" "clock (connect w) = clock w"
  by (simp_all add: connect_def)

lemma timer_inv_connect: "timer_inv w \<Longrightarrow> timer_inv (connect w)"
  by (simp add: timer_inv_def connect_frame)

lemma timer_inv_sockets: "timer_inv (w\<lparr>sockets := s\<rparr>) = timer_inv w"
  by (simp add: timer_inv_def)

lemma scheduleReconnect_timers:
  assumes "timer_inv w"
  shows "timers (scheduleReconnect w) = [(nextTimer w, clock w + 1000)]"
    and "reconnectTimeout (scheduleReconnect w) = Some (nextTimer w)"
    and "nextTimer (scheduleReconnect w) = Suc (nextTimer w)"
  using clearReconnect_timers [OF assms]
  by (simp_all add: scheduleReconnect_def setTimeout_def)

lemma timer_inv_scheduleReconnect:
  assumes "timer_inv w"
  shows "timer_inv (scheduleReconnect w)"
  using scheduleReconnect_timers [OF assms] assms
  by (simp add: timer_inv_def)

lemma timer_inv_disconnect:
  assumes "timer_inv w"
  shows "timer_inv (disconnect w)"
  using clearReconnect_timers [OF assms] assms
  by (simp add: timer_inv_def disconnect_def Let_def split: option.splits)

lemma timer_inv_clearTimeout:
  assumes "timer_inv w"
  shows "timer_inv (clearTimeout t w)"
proof -
  from assms have "length (timers w) \<le> 1"
    by (simp add: timer_inv_def)
  then have "length (filter (\<lambda>p. fst p \<noteq> t) (timers w)) \<le> 1"
    by (rule le_trans [OF length_filter_le])
  with assms show ?thesis
    by (auto simp: timer_inv_def clearTimeout_def)
qed

lemma timer_inv_step:
  assumes "timer_inv w"
  shows "timer_inv (step e w)"
proof (cases e)
  case CallConnect
  with assms show ?thesis by (simp add: timer_inv_connect)
next
  case CallDisconnect
  with assms show ?thesis by (simp add: timer_inv_disconnect)
next
  case (SocketOpens i)
  with assms show ?thesis by (simp add: timer_inv_sockets)
next
  case (SocketErrors i)
  with assms show ?thesis by simp
next
  case (SocketCloses i)
  with assms show ?thesis
    by (simp add: timer_inv_scheduleReconnect timer_inv_sockets)
next
  case (TimerFires t)
  with assms show ?thesis
    by (simp add: timer_inv_connect timer_inv_clearTimeout)
next
  case (Advance n)
  with assms show ?thesis by (simp add: timer_inv_def)
qed

lemma timer_inv_run: "timer_inv w \<Longrightarrow> timer_inv (run es w)"
  by (induction es arbitrary: w) (simp_all add: timer_inv_step)

lemma scheduled_fires:
  assumes "timer_inv w"
  shows "step (TimerFires (nextTimer w)) (step (Advance n) (scheduleReconnect w))
       = (if 1000 \<le> n
          then connect (clearTimeout (nextTimer w) (step (Advance n) (scheduleReconnect w)))
          else step (Advance n) (scheduleReconnect w))"
proof -
  have "due (nextTimer w) (step (Advance n) (scheduleReconnect w)) \<longleftrightarrow> 1000 \<le> n"
    using scheduleReconnect_timers(1) [OF assms] clearReconnect_timers(3) [OF assms]
    by (simp add: due_def scheduleReconnect_def setTimeout_def)
  then show ?thesis by simp
qed

text \<open>
  C6. In every state a session can reach, at most one timeout is pending. When a socket
  that is not yet closed closes, the pending timeouts afterwards are exactly one, newly
  created and due 1000 ms after the close: a timeout that was pending at the close has
  been cancelled, not kept beside the new one. That timeout does not fire before the
  1000 ms have passed, and when it fires then, it runs \<open>connect\<close>.
\<close>

theorem C6_single_timer:
  "length (timers (run es (newSession ok))) \<le> 1
   \<and> (\<forall>i. i < length (sockets (run es (newSession ok)))
          \<and> sockets (run es (newSession ok)) ! i \<noteq> CLOSED \<longrightarrow>
        timers (step (SocketCloses i) (run es (newSession ok)))
        = [(nextTimer (run es (newSession ok)), clock (run es (newSession ok)) + 1000)]
        \<and> nextTimer (run es (newSession ok))
            \<notin> fst ` set (timers (run es (newSession ok))))
   \<and> (\<forall>i n. i < length (sockets (run es (newSession ok)))
          \<and> sockets (run es (newSession ok)) ! i \<noteq> CLOSED \<longrightarrow>
        step (TimerFires (nextTimer (run es (newSession ok))))
          (step (Advance n) (step (SocketCloses i) (run es (newSession ok))))
        = (if 1000 \<le> n
           then connect (clearTimeout (nextTimer (run es (newSession ok)))
                  (step (Advance n) (step (SocketCloses i) (run es (newSession ok)))))
           else step (Advance n) (step (SocketCloses i) (run es (newSession ok)))))"
proof -
  define w where "w = run es (newSession ok)"
  have inv: "timer_inv w"
    unfolding w_def by (intro timer_inv_run timer_inv_new)
  then have one: "length (timers w) \<le> 1"
    by (auto simp: timer_inv_def)
  have fresh: "nextTimer w \<notin> fst ` set (timers w)"
    using inv by (auto simp: timer_inv_def)
  have close: "timers (step (SocketCloses i) w) = [(nextTimer w, clock w + 1000)]"
    and fire: "step (TimerFires (nextTimer w)) (step (Advance n) (step (SocketCloses i) w))
        = (if 1000 \<le> n
           then connect (clearTimeout (nextTimer w) (step (Advance n) (step (SocketCloses i) w)))
           else step (Advance n) (step (SocketCloses i) w))"
    if "i < length (sockets w)" "sockets w ! i \<noteq> CLOSED" for i n
  proof -
    let ?w = "w\<lparr>sockets := (sockets w)[i := CLOSED]\<rparr>"
    have closed: "timer_inv ?w"
      using inv by (simp add: timer_inv_sockets)
    from scheduleReconnect_timers(1) [OF closed] that
    show "timers (step (SocketCloses i) w) = [(nextTimer w, clock w + 1000)]"
      by simp
    from scheduled_fires [OF closed, of n] that
    show "step (TimerFires (nextTimer w)) (step (Advance n) (step (SocketCloses i) w))
        = (if 1000 \<le> n
           then connect (clearTimeout (nextTimer w) (step (Advance n) (step (SocketCloses i) w)))
           else step (Advance n) (step (SocketCloses i) w))"
      by simp
  qed
  from one fresh close fire show ?thesis
    unfolding w_def by blast
qed

theorem C6_single_timer_witness:
  "length (timers (run [CallConnect, CallConnect, SocketCloses 0, Advance 400] (newSession True)))
     \<le> 1
   \<and> timers (run [CallConnect, CallConnect, SocketCloses 0, Advance 400] (newSession True))
     = [(1, 1000)]
   \<and> timers (step (SocketCloses 1)
       (run [CallConnect, CallConnect, SocketCloses 0, Advance 400] (newSession True)))
     = [(2, 1400)]
   \<and> step (TimerFires 2) (step (Advance 999) (step (SocketCloses 1)
       (run [CallConnect, CallConnect, SocketCloses 0, Advance 400] (newSession True))))
     = \<lparr>ws = Some 1, reconnectTimeout = Some 2, url_ok = True, sockets = [CLOSED, CLOSED],
        timers = [(2, 1400)], nextTimer = 3, clock = 1399\<rparr>
   \<and> step (TimerFires 2) (step (Advance 1000) (step (SocketCloses 1)
       (run [CallConnect, CallConnect, SocketCloses 0, Advance 400] (newSession True))))
     = \<lparr>ws = Some 2, reconnectTimeout = Some 2, url_ok = True,
        sockets = [CLOSED, CLOSED, CONNECTING], timers = [], nextTimer = 3, clock = 1400\<rparr>"
proof -
  let ?es = "[CallConnect, CallConnect, SocketCloses 0, Advance 400]"
  let ?w = "\<lparr>ws = Some 1, reconnectTimeout = Some 1, url_ok = True,
             sockets = [CLOSED, CONNECTING], timers = [(1, 1000)], nextTimer = 2, clock = 400\<rparr>"
  have w: "run ?es (newSession True) = ?w"
    by (simp add: newSession_def connect_def clearReconnect_def scheduleReconnect_def
        setTimeout_def)
  note one = C6_single_timer [of ?es True, THEN conjunct1]
  note close =
    C6_single_timer [of ?es True, THEN conjunct2, THEN conjunct1, rule_format, of 1, unfolded w]
  note early =
    C6_single_timer [of ?es True, THEN conjunct2, THEN conjunct2, rule_format, of 1 999,
      unfolded w]
  note late =
    C6_single_timer [of ?es True, THEN conjunct2, THEN conjunct2, rule_format, of 1 1000,
      unfolded w]
  have a: "timers (step (SocketCloses 1) ?w) = [(2, 1400)]"
    using close by simp
  have b: "step (TimerFires 2) (step (Advance 999) (step (SocketCloses 1) ?w))
      = \<lparr>ws = Some 1, reconnectTimeout = Some 2, url_ok = True, sockets = [CLOSED, CLOSED],
         timers = [(2, 1400)], nextTimer = 3, clock = 1399\<rparr>"
    using early
    by (simp add: clearReconnect_def clearTimeout_def scheduleReconnect_def setTimeout_def due_def)
  have c: "step (TimerFires 2) (step (Advance 1000) (step (SocketCloses 1) ?w))
      = \<lparr>ws = Some 2, reconnectTimeout = Some 2, url_ok = True,
         sockets = [CLOSED, CLOSED, CONNECTING], timers = [], nextTimer = 3, clock = 1400\<rparr>"
    using late
    by (simp add: clearReconnect_def clearTimeout_def scheduleReconnect_def setTimeout_def due_def
        connect_def)
  from one a b c show ?thesis
    unfolding w by simp
qed

text \<open>
  C5 does not hold of the code. \<open>disconnect\<close> cancels the pending timeout and closes the
  socket, but the socket keeps its \<open>onclose\<close> handler: when the browser then delivers the
  close event of that socket, \<open>scheduleReconnect\<close> runs and a timeout is pending again, and
  when it fires 1000 ms later \<open>connect\<close> opens a new socket.
\<close>

theorem C5_reconnect_after_teardown:
  "run [CallConnect, SocketOpens 0, CallDisconnect] (newSession True)
     = \<lparr>ws = Some 0, reconnectTimeout = None, url_ok = True, sockets = [CLOSING], timers = [],
        nextTimer = 1, clock = 0\<rparr>
   \<and> run [CallConnect, SocketOpens 0, CallDisconnect, SocketCloses 0] (newSession True)
     = \<lparr>ws = Some 0, reconnectTimeout = Some 1, url_ok = True, sockets = [CLOSED],
        timers = [(1, 1000)], nextTimer = 2, clock = 0\<rparr>
   \<and> run [CallConnect, SocketOpens 0, CallDisconnect, SocketCloses 0, Advance 1000, TimerFires 1]
       (newSession True)
     = \<lparr>ws = Some 1, reconnectTimeout = Some 1, url_ok = True, sockets = [CLOSED, CONNECTING],
        timers = [], nextTimer = 2, clock = 1000\<rparr>"
  by (simp add: newSession_def connect_def disconnect_def clearReconnect_def clearTimeout_def
      scheduleReconnect_def setTimeout_def ws_close_def element_def due_def)

end
